theory Spec2Isabelle
  imports Complex_Main
begin

section \<open>Strings\<close>

text \<open>
  Python strings are modelled as \<open>string\<close>; a \<open>char\<close> stands for a code point below 256.
  \<open>isspace\<close> lists the code points below 256 that Python's \<open>str.isspace\<close> accepts, which
  are the ones \<open>str.strip()\<close> removes from both ends.
\<close>

definition isspace :: "char \<Rightarrow> bool" where
  "isspace c = ((of_char c :: nat) \<in> {9, 10, 11, 12, 13, 28, 29, 30, 31, 32, 133, 160})"

definition strip :: "string \<Rightarrow> string" where
  "strip s = rev (dropWhile isspace (rev (dropWhile isspace s)))"

text \<open>\<open>s.split(sep)\<close> with an explicit one-character separator: never empty, keeps empty pieces.\<close>

fun split_on :: "char \<Rightarrow> string \<Rightarrow> string list" where
  "split_on sep [] = [[]]"
| "split_on sep (c # cs) =
     (let r = split_on sep cs
      in if c = sep then [] # r else (c # hd r) # tl r)"

abbreviation newline :: char where
  "newline \<equiv> CHR 0x0A"

abbreviation space :: char where
  "space \<equiv> CHR 0x20"

section \<open>Articles, the document tree and the tokenizer\<close>

record article =
  title :: string
  "text" :: string

text \<open>
  The input root: directories, each holding files, each file a sequence of lines, every line
  one record already decoded by \<open>json.loads\<close>.
\<close>

type_synonym wiki_file = "article list"
type_synonym wiki_root = "wiki_file list list"

text \<open>
  The Moses tokenizer is an external library. It is a parameter of the model:
  \<open>tokenize\<close> is \<open>mt.tokenize(s)\<close>, a list of tokens, and \<open>tokenize_str\<close> is
  \<open>mt.tokenize(s, return_str=True)\<close>, one string.
\<close>

record tokenizer =
  tokenize :: "string \<Rightarrow> string list"
  tokenize_str :: "string \<Rightarrow> string"

section \<open>get_texts\<close>

fun get_texts_file :: "wiki_file \<Rightarrow> article list" where
  "get_texts_file [] = []"
| "get_texts_file (a # f_in) =
     (if strip (text a) = title a then get_texts_file f_in
      else a # get_texts_file f_in)"

definition get_texts :: "wiki_root \<Rightarrow> article list" where
  "get_texts input_root = concat (map (\<lambda>dir. concat (map get_texts_file dir)) input_root)"

section \<open>findTotalTokens\<close>

fun scan_paragraphs :: "tokenizer \<Rightarrow> string list \<Rightarrow> int \<Rightarrow> int" where
  "scan_paragraphs mt [] total' = total'"
| "scan_paragraphs mt (paragraph # paragraphs) total' =
     (let tokenized = tokenize mt (strip paragraph);
          token_count = int (length tokenized) + 1
      in scan_paragraphs mt paragraphs
           (if token_count \<ge> 100 then total' + int (length tokenized) else total'))"

fun scan_file :: "tokenizer \<Rightarrow> wiki_file \<Rightarrow> int \<Rightarrow> int" where
  "scan_file mt [] total' = total'"
| "scan_file mt (a # f_in) total' =
     (if strip (text a) = title a then scan_file mt f_in total'
      else scan_file mt f_in (scan_paragraphs mt (split_on newline (text a)) total'))"

definition findTotalTokens :: "wiki_root \<Rightarrow> tokenizer \<Rightarrow> int" where
  "findTotalTokens input_root mt =
     fold (\<lambda>dir total'. fold (\<lambda>wiki_file total'. scan_file mt wiki_file total') dir total')
       input_root 0"

section \<open>write_wikitext\<close>

text \<open>
  The paragraph loop of one article: the running \<open>num_tokens_article\<close> and the list
  \<open>tokenized_paragraphs\<close>.
\<close>

fun tokenize_paragraphs ::
  "tokenizer \<Rightarrow> string list \<Rightarrow> int \<times> string list \<Rightarrow> int \<times> string list" where
  "tokenize_paragraphs mt [] acc = acc"
| "tokenize_paragraphs mt (paragraph # paragraphs) (num_tokens_article, tokenized_paragraphs) =
     (let tokenized = tokenize_str mt (strip paragraph);
          tokens = split_on space tokenized;
          tokens = filter (\<lambda>token. token \<noteq> []) tokens
      in tokenize_paragraphs mt paragraphs
           (num_tokens_article + (int (length tokens) + 1), tokenized_paragraphs @ [tokenized]))"

definition tokenize_article :: "tokenizer \<Rightarrow> article \<Rightarrow> int \<times> string list" where
  "tokenize_article mt a = tokenize_paragraphs mt (split_on newline (text a)) (0, [])"

text \<open>The writes of one accepted article: the header line, then one line per paragraph.\<close>

definition write_article :: "string \<Rightarrow> string list \<Rightarrow> string" where
  "write_article ttl tokenized_paragraphs =
     (''= '' @ strip ttl @ '' ='') @ [newline]
       @ concat (map (\<lambda>tokenized. tokenized @ [newline]) tokenized_paragraphs)"

text \<open>
  What one call leaves behind: the text written to the file (opened with mode \<open>w\<close>), and the
  two numbers it prints.
\<close>

record written =
  f_out :: string
  count :: int
  total_num_tokens :: int

text \<open>
  The article loop. The iterator is the list of articles not yet pulled; the call returns
  what is left of it, since the caller goes on pulling from the same generator.
\<close>

fun write_loop ::
  "tokenizer \<Rightarrow> int option \<Rightarrow> article list \<Rightarrow> written \<Rightarrow> written \<times> article list" where
  "write_loop mt num_tokens [] st = (st, [])"
| "write_loop mt num_tokens (a # text_iter) st =
     (let (num_tokens_article, tokenized_paragraphs) = tokenize_article mt a
      in if num_tokens_article < 100 then write_loop mt num_tokens text_iter st
         else
           let st' = \<lparr>f_out = f_out st @ write_article (title a) tokenized_paragraphs,
                      count = count st + 1,
                      total_num_tokens = total_num_tokens st + (num_tokens_article + 1)\<rparr>
           in if (case num_tokens of None \<Rightarrow> False | Some n \<Rightarrow> total_num_tokens st' > n)
              then (st', text_iter)
              else write_loop mt num_tokens text_iter st')"

definition write_wikitext ::
  "article list \<Rightarrow> tokenizer \<Rightarrow> int option \<Rightarrow> written \<times> article list" where
  "write_wikitext text_iter mt num_tokens =
     write_loop mt num_tokens text_iter \<lparr>f_out = [], count = 0, total_num_tokens = 0\<rparr>"

section \<open>get_splits and main\<close>

text \<open>
  Python floats are IEEE doubles. A finite double is given here by its value, a rational
  number, and \<open>to_double\<close> rounds a rational number to the nearest double, ties to the even
  significand: 53 bits of significand, exponents from -1022 to 1023, below that the
  subnormal spacing of \<open>2^-1074\<close>. It is \<open>None\<close> when the rounded value reaches \<open>2^1024\<close> and
  the double would be infinite. \<open>bit_length\<close> is Python's \<open>int.bit_length\<close> on positive
  integers; \<open>float_exponent x\<close> is the \<open>e\<close> with \<open>2^e \<le> |x| < 2^(e+1)\<close>.
\<close>

function bit_length :: "int \<Rightarrow> int" where
  "bit_length n = (if n \<le> 0 then 0 else 1 + bit_length (n div 2))"
  by pat_completeness auto
termination
  by (relation "measure nat") auto

declare bit_length.simps [simp del]

definition round_half_even :: "rat \<Rightarrow> int" where
  "round_half_even x =
     (let f = \<lfloor>x\<rfloor>; d = x - of_int f
      in if d < 1 / 2 then f else if 1 / 2 < d then f + 1 else if even f then f else f + 1)"

definition float_exponent :: "rat \<Rightarrow> int" where
  "float_exponent x =
     (let (a, b) = quotient_of \<bar>x\<bar>;
          e = bit_length a - bit_length b
      in if power_int 2 e \<le> \<bar>x\<bar> then e else e - 1)"

definition double_limit :: rat where
  "double_limit = 2 ^ 1024"

definition to_double :: "rat \<Rightarrow> rat option" where
  "to_double x =
     (if x = 0 then Some 0
      else
        let e = max (float_exponent x) (- 1022);
            ulp = power_int 2 (e - 52);
            r = of_int (round_half_even (x / ulp)) * ulp
        in if double_limit \<le> \<bar>r\<bar> then None else Some r)"

text \<open>The double that the literal \<open>0.1\<close> denotes: \<open>3602879701896397 / 2^55\<close>.\<close>

definition float_0_1 :: rat where
  "float_0_1 = 3602879701896397 / 36028797018963968"

text \<open>\<open>int(x)\<close> on a float truncates toward zero.\<close>

definition py_int :: "rat \<Rightarrow> int" where
  "py_int x = (if 0 \<le> x then \<lfloor>x\<rfloor> else \<lceil>x\<rceil>)"

text \<open>
  \<open>get_splits\<close>: the argument \<open>split\<close> is a double, given by its value. The product
  \<open>tokens_size*split\<close> converts the integer to a double and multiplies two doubles, each
  step rounding; an integer too large for a double, or an infinite product handed to
  \<open>int()\<close>, raises \<open>OverflowError\<close>.
\<close>

datatype py_error = OverflowError

definition get_splits :: "int \<Rightarrow> rat \<Rightarrow> py_error + int list" where
  "get_splits tokens_size split =
     (case to_double (of_int tokens_size) of
        None \<Rightarrow> Inl OverflowError
      | Some t \<Rightarrow>
          (case to_double (t * split) of
             None \<Rightarrow> Inl OverflowError
           | Some p \<Rightarrow>
               let split' = py_int p;
                   tokens_size' = tokens_size - (2 * split')
               in Inr [tokens_size', split', split']))"

text \<open>The loop over \<open>zip(splits, token_nums)\<close>: one call per split, on the same iterator.\<close>

fun write_splits ::
  "tokenizer \<Rightarrow> article list \<Rightarrow> (string \<times> int) list \<Rightarrow> (string \<times> written) list \<times> article list" where
  "write_splits mt text_iter [] = ([], text_iter)"
| "write_splits mt text_iter ((split, token_num) # rest) =
     (let (w, text_iter') = write_wikitext text_iter mt (Some token_num);
          (ws, text_iter'') = write_splits mt text_iter' rest
      in ((split, w) # ws, text_iter''))"

definition splits :: "string list" where
  "splits = [''train'', ''valid'', ''test'']"

definition main ::
  "wiki_root \<Rightarrow> tokenizer \<Rightarrow> int option \<Rightarrow> py_error + (string \<times> written) list" where
  "main input_path mt tokens =
     (let tokens_size = (case tokens of None \<Rightarrow> findTotalTokens input_path mt | Some t \<Rightarrow> t)
      in case get_splits tokens_size float_0_1 of
           Inl e \<Rightarrow> Inl e
         | Inr token_nums \<Rightarrow>
             let text_iter = get_texts input_path
             in Inr (fst (write_splits mt text_iter (zip splits token_nums))))"

section \<open>A tokenizer and articles to run the program on\<close>

text \<open>
  A tokenizer that cuts at spaces, and joins with single spaces for \<open>return_str=True\<close>.
  On text made of letters and single spaces the Moses tokenizer does the same.
\<close>

fun join_space :: "string list \<Rightarrow> string" where
  "join_space [] = []"
| "join_space [w] = w"
| "join_space (w # ws) = w @ [space] @ join_space ws"

definition space_tokens :: "string \<Rightarrow> string list" where
  "space_tokens s = filter (\<lambda>token. token \<noteq> []) (split_on space s)"

definition space_tokenizer :: tokenizer where
  "space_tokenizer =
     \<lparr>tokenize = space_tokens, tokenize_str = (\<lambda>s. join_space (space_tokens s))\<rparr>"

text \<open>An article of \<open>n\<close> lines, each the one word \<open>a\<close>, followed by a last line.\<close>

definition lines_article :: "string \<Rightarrow> nat \<Rightarrow> string \<Rightarrow> article" where
  "lines_article ttl n last_line =
     \<lparr>title = ttl, text = concat (replicate n (''a'' @ [newline])) @ last_line\<rparr>"

text \<open>
  The text of such an article in an output file: the header line with the title, then
  \<open>n\<close> lines, each the one word \<open>a\<close>.
\<close>

definition lines_text :: "string \<Rightarrow> nat \<Rightarrow> string" where
  "lines_text ttl n = (''= '' @ ttl @ '' ='') @ [newline] @ concat (replicate n (''a'' @ [newline]))"

section \<open>Notions used to state the properties\<close>

text \<open>
  The token count as the specification words it: over the paragraphs of the text, the number
  of non-empty tokens between spaces in the tokenized paragraph, plus one.
\<close>

definition paragraph_count :: "tokenizer \<Rightarrow> string \<Rightarrow> int" where
  "paragraph_count mt paragraph =
     int (length (filter (\<lambda>token. token \<noteq> []) (split_on space (tokenize_str mt (strip paragraph))))) + 1"

definition token_count_spec :: "tokenizer \<Rightarrow> string \<Rightarrow> int" where
  "token_count_spec mt txt = sum_list (map (paragraph_count mt) (split_on newline txt))"

text \<open>
  What the writer computes for one article: the final \<open>num_tokens_article\<close>, and the test
  that lets the article through.
\<close>

definition num_tokens_article :: "tokenizer \<Rightarrow> article \<Rightarrow> int" where
  "num_tokens_article mt a = fst (tokenize_article mt a)"

definition accepted :: "tokenizer \<Rightarrow> article \<Rightarrow> bool" where
  "accepted mt a = (\<not> num_tokens_article mt a < 100)"

text \<open>
  The text of one article in an output file, as the specification words it: the header line
  \<open>= title =\<close> with the stripped title, then every paragraph of the text, stripped and
  tokenized, on a line of its own.
\<close>

definition block :: "tokenizer \<Rightarrow> article \<Rightarrow> string" where
  "block mt a =
     (''= '' @ strip (title a) @ '' ='') @ [newline] @
     concat (map (\<lambda>p. tokenize_str mt (strip p) @ [newline]) (split_on newline (text a)))"

text \<open>
  For a stretch of the source: the text of its accepted articles in order, and the tokens
  they add to \<open>total_num_tokens\<close>.
\<close>

definition docs :: "tokenizer \<Rightarrow> article list \<Rightarrow> string" where
  "docs mt as = concat (map (block mt) (filter (accepted mt) as))"

definition spent :: "tokenizer \<Rightarrow> article list \<Rightarrow> int" where
  "spent mt as = sum_list (map (\<lambda>a. num_tokens_article mt a + 1) (filter (accepted mt) as))"

text \<open>The articles pulled from the iterator \<open>src\<close> when \<open>rest\<close> is what is left of it.\<close>

definition consumed :: "article list \<Rightarrow> article list \<Rightarrow> article list" where
  "consumed src rest = take (length src - length rest) src"

text \<open>
  The total that a scan agreeing with the writer would return: the sum of
  \<open>num_tokens_article\<close> over the articles of \<open>get_texts\<close> that the writer accepts.
\<close>

definition accepted_token_total :: "tokenizer \<Rightarrow> wiki_root \<Rightarrow> int" where
  "accepted_token_total mt input_root =
     sum_list (map (num_tokens_article mt) (filter (accepted mt) (get_texts input_root)))"

text \<open>The articles that each call of the loop over the splits pulls from the iterator.\<close>

fun segments :: "tokenizer \<Rightarrow> article list \<Rightarrow> (string \<times> int) list \<Rightarrow> article list list" where
  "segments mt text_iter [] = []"
| "segments mt text_iter ((split, token_num) # rest) =
     (let text_iter' = snd (write_wikitext text_iter mt (Some token_num))
      in consumed text_iter text_iter' # segments mt text_iter' rest)"

section \<open>The paragraph loop and the article loop\<close>

lemma tokenize_paragraphs_acc:
  "tokenize_paragraphs mt ps (n, tps) =
     (n + sum_list (map (paragraph_count mt) ps), tps @ map (\<lambda>p. tokenize_str mt (strip p)) ps)"
  by (induction ps arbitrary: n tps) (simp_all add: paragraph_count_def Let_def)

lemma tokenize_article_eq:
  "tokenize_article mt a =
     (token_count_spec mt (text a), map (\<lambda>p. tokenize_str mt (strip p)) (split_on newline (text a)))"
  by (simp add: tokenize_article_def tokenize_paragraphs_acc token_count_spec_def)

lemma write_article_block:
  "write_article (title a) (snd (tokenize_article mt a)) = block mt a"
  by (simp add: block_def tokenize_article_eq write_article_def comp_def)

lemma write_loop_reject:
  "\<not> accepted mt a \<Longrightarrow> write_loop mt nt (a # it) st = write_loop mt nt it st"
  by (cases "tokenize_article mt a") (simp add: accepted_def num_tokens_article_def)

lemma write_loop_accept:
  assumes "accepted mt a"
  shows "write_loop mt nt (a # it) st =
     (let st' = \<lparr>f_out = f_out st @ block mt a, count = count st + 1,
                  total_num_tokens = total_num_tokens st + (num_tokens_article mt a + 1)\<rparr>
      in if (case nt of None \<Rightarrow> False | Some n \<Rightarrow> total_num_tokens st' > n)
         then (st', it) else write_loop mt nt it st')"
proof -
  obtain n tps where t: "tokenize_article mt a = (n, tps)"
    by (cases "tokenize_article mt a")
  with write_article_block[of a mt] have w: "write_article (title a) tps = block mt a"
    by simp
  from t w assms show ?thesis
    by (cases nt) (simp_all add: accepted_def num_tokens_article_def Let_def)
qed

declare write_loop.simps(2) [simp del]

lemma write_loop_length: "write_loop mt nt src st = (st', rest) \<Longrightarrow> length rest \<le> length src"
proof (induction src arbitrary: st)
  case Nil then show ?case by simp
next
  case (Cons a src)
  show ?case
  proof (cases "accepted mt a")
    case False
    with Cons show ?thesis by (auto simp: write_loop_reject le_SucI)
  next
    case True
    with Cons show ?thesis
      by (auto simp: write_loop_accept Let_def le_SucI split: if_splits)
  qed
qed

lemma write_loop_char:
  "write_loop mt nt src st = (st', rest) \<Longrightarrow>
     src = consumed src rest @ rest \<and>
     f_out st' = f_out st @ docs mt (consumed src rest) \<and>
     count st' = count st + int (length (filter (accepted mt) (consumed src rest))) \<and>
     total_num_tokens st' = total_num_tokens st + spent mt (consumed src rest)"
proof (induction src arbitrary: st)
  case Nil then show ?case by (simp add: consumed_def docs_def spent_def)
next
  case (Cons a src)
  have cons: "length rest \<le> length src \<Longrightarrow> consumed (a # src) rest = a # consumed src rest"
    by (simp add: consumed_def Suc_diff_le)
  show ?case
  proof (cases "accepted mt a")
    case False
    with Cons.prems have run: "write_loop mt nt src st = (st', rest)"
      by (simp add: write_loop_reject)
    from write_loop_length[OF run] Cons.IH[OF run] False show ?thesis
      by (simp add: cons docs_def spent_def)
  next
    case True
    let ?st = "\<lparr>f_out = f_out st @ block mt a, count = count st + 1,
                  total_num_tokens = total_num_tokens st + (num_tokens_article mt a + 1)\<rparr>"
    show ?thesis
    proof (cases "case nt of None \<Rightarrow> False | Some n \<Rightarrow> total_num_tokens ?st > n")
      case stop: True
      with True Cons.prems have "st' = ?st" "rest = src"
        by (simp_all add: write_loop_accept Let_def)
      with True show ?thesis by (simp add: consumed_def docs_def spent_def)
    next
      case go: False
      with True Cons.prems have run: "write_loop mt nt src ?st = (st', rest)"
        by (simp add: write_loop_accept Let_def)
      from write_loop_length[OF run] Cons.IH[OF run] True show ?thesis
        by (simp add: cons docs_def spent_def)
    qed
  qed
qed

lemma docs_Cons:
  "docs mt (a # as) = (if accepted mt a then block mt a else []) @ docs mt as"
  by (simp add: docs_def)

lemma docs_append: "docs mt (xs @ ys) = docs mt xs @ docs mt ys"
  by (simp add: docs_def)

lemma spent_Cons:
  "spent mt (a # as) = (if accepted mt a then num_tokens_article mt a + 1 else 0) + spent mt as"
  by (simp add: spent_def)

lemma consumed_Cons:
  "length rest \<le> length src \<Longrightarrow> consumed (a # src) rest = a # consumed src rest"
  by (simp add: consumed_def Suc_diff_le)

lemma consumed_self: "consumed src src = []"
  by (simp add: consumed_def)

section \<open>Where the loop stops\<close>

lemma write_loop_stopped:
  "write_loop mt (Some b) src st = (st', rest) \<Longrightarrow> rest \<noteq> [] \<Longrightarrow>
     consumed src rest \<noteq> [] \<and> accepted mt (last (consumed src rest)) \<and> b < total_num_tokens st'"
proof (induction src arbitrary: st)
  case Nil then show ?case by simp
next
  case (Cons a src)
  show ?case
  proof (cases "accepted mt a")
    case False
    with Cons.prems have run: "write_loop mt (Some b) src st = (st', rest)"
      by (simp add: write_loop_reject)
    from write_loop_length[OF run] Cons.IH[OF run Cons.prems(2)] show ?thesis
      by (simp add: consumed_Cons)
  next
    case True
    let ?st = "\<lparr>f_out = f_out st @ block mt a, count = count st + 1,
                  total_num_tokens = total_num_tokens st + (num_tokens_article mt a + 1)\<rparr>"
    show ?thesis
    proof (cases "b < total_num_tokens ?st")
      case stop: True
      with True Cons.prems have "st' = ?st" "rest = src"
        by (simp_all add: write_loop_accept Let_def)
      with True stop show ?thesis by (simp add: consumed_def)
    next
      case go: False
      with True Cons.prems have run: "write_loop mt (Some b) src ?st = (st', rest)"
        by (simp add: write_loop_accept Let_def)
      from write_loop_length[OF run] Cons.IH[OF run Cons.prems(2)] show ?thesis
        by (simp add: consumed_Cons)
    qed
  qed
qed

lemma write_loop_not_stopped:
  "write_loop mt (Some b) src st = (st', rest) \<Longrightarrow> Suc k < length (consumed src rest) \<Longrightarrow>
     accepted mt (consumed src rest ! k) \<Longrightarrow>
     total_num_tokens st + spent mt (take (Suc k) (consumed src rest)) \<le> b"
proof (induction src arbitrary: st k)
  case Nil then show ?case by (simp add: consumed_def)
next
  case (Cons a src)
  show ?case
  proof (cases "accepted mt a")
    case False
    with Cons.prems have run: "write_loop mt (Some b) src st = (st', rest)"
      by (simp add: write_loop_reject)
    have c: "consumed (a # src) rest = a # consumed src rest"
      using write_loop_length[OF run] by (simp add: consumed_Cons)
    show ?thesis
    proof (cases k)
      case 0
      with Cons.prems(3) False c show ?thesis by simp
    next
      case (Suc j)
      with Cons.prems c have "Suc j < length (consumed src rest)" "accepted mt (consumed src rest ! j)"
        by simp_all
      from Cons.IH[OF run this] False c Suc show ?thesis
        by (simp add: spent_Cons)
    qed
  next
    case True
    let ?st = "\<lparr>f_out = f_out st @ block mt a, count = count st + 1,
                  total_num_tokens = total_num_tokens st + (num_tokens_article mt a + 1)\<rparr>"
    show ?thesis
    proof (cases "b < total_num_tokens ?st")
      case stop: True
      with True Cons.prems(1) have "rest = src"
        by (simp add: write_loop_accept Let_def)
      with Cons.prems(2) show ?thesis by (simp add: consumed_def)
    next
      case go: False
      with True Cons.prems have run: "write_loop mt (Some b) src ?st = (st', rest)"
        by (simp add: write_loop_accept Let_def)
      have c: "consumed (a # src) rest = a # consumed src rest"
        using write_loop_length[OF run] by (simp add: consumed_Cons)
      show ?thesis
      proof (cases k)
        case 0
        with go True c show ?thesis by (simp add: spent_Cons spent_def)
      next
        case (Suc j)
        with Cons.prems c have "Suc j < length (consumed src rest)" "accepted mt (consumed src rest ! j)"
          by simp_all
        from Cons.IH[OF run this] True c Suc show ?thesis
          by (simp add: spent_Cons)
      qed
    qed
  qed
qed

section \<open>One call, and the calls in sequence\<close>

lemma write_wikitext_char:
  "write_wikitext src mt nt = (w, rest) \<Longrightarrow>
     src = consumed src rest @ rest \<and>
     f_out w = docs mt (consumed src rest) \<and>
     count w = int (length (filter (accepted mt) (consumed src rest))) \<and>
     total_num_tokens w = spent mt (consumed src rest)"
  using write_loop_char[of mt nt src "\<lparr>f_out = [], count = 0, total_num_tokens = 0\<rparr>" w rest]
  by (simp add: write_wikitext_def)

lemma write_splits_segments:
  "write_splits mt src budgets = (outs, rest) \<Longrightarrow>
     map fst outs = map fst budgets \<and>
     map f_out (map snd outs) = map (docs mt) (segments mt src budgets) \<and>
     src = concat (segments mt src budgets) @ rest"
proof (induction budgets arbitrary: src outs)
  case Nil then show ?case by simp
next
  case (Cons sb budgets)
  obtain split token_num where sb: "sb = (split, token_num)" by (cases sb)
  obtain w it where w: "write_wikitext src mt (Some token_num) = (w, it)"
    by (cases "write_wikitext src mt (Some token_num)")
  obtain ws it' where ws: "write_splits mt it budgets = (ws, it')"
    by (cases "write_splits mt it budgets")
  from Cons.prems sb w ws have outs: "outs = (split, w) # ws" and rest: "it' = rest"
    by simp_all
  from write_wikitext_char[OF w] Cons.IH[OF ws[unfolded rest]] show ?case
    by (simp add: sb w outs)
qed

lemma accepted_ge: "accepted mt a \<Longrightarrow> 100 \<le> num_tokens_article mt a"
  by (simp add: accepted_def)

lemma write_loop_nonpositive:
  "b \<le> 0 \<Longrightarrow>
   write_loop mt (Some b) src \<lparr>f_out = [], count = 0, total_num_tokens = 0\<rparr> =
     (case dropWhile (\<lambda>a. \<not> accepted mt a) src of
        [] \<Rightarrow> (\<lparr>f_out = [], count = 0, total_num_tokens = 0\<rparr>, [])
      | a # rest \<Rightarrow>
          (\<lparr>f_out = block mt a, count = 1, total_num_tokens = num_tokens_article mt a + 1\<rparr>, rest))"
proof (induction src)
  case Nil then show ?case by simp
next
  case (Cons a src)
  show ?case
  proof (cases "accepted mt a")
    case False
    with Cons show ?thesis by (simp add: write_loop_reject)
  next
    case True
    with accepted_ge[OF True] Cons.prems show ?thesis
      by (simp add: write_loop_accept Let_def)
  qed
qed

lemma no_tokens_iff:
  "filter (\<lambda>token. token \<noteq> []) (split_on space s) = [] \<longleftrightarrow> set s \<subseteq> {space}"
  by (induction s) (auto simp: Let_def)

section \<open>The token count of an article\<close>

text \<open>
  C5. The \<open>num_tokens_article\<close> that \<open>write_wikitext\<close> computes for an article is the sum,
  over the paragraphs that \<open>text.split('\n')\<close> gives, of the number of non-empty tokens that
  \<open>split(' ')\<close> finds in the tokenized paragraph, plus one. The one is added for every
  paragraph, also for a paragraph with no token: the count is the number of tokens of all
  paragraphs plus the number of paragraphs. Tokens are delimited by the space character, which
  is what the source calls splitting on whitespace.
\<close>

theorem num_tokens_article_per_paragraph:
  "num_tokens_article mt a = token_count_spec mt (text a) \<and>
   num_tokens_article mt a =
     (\<Sum>p\<leftarrow>split_on newline (text a).
        int (length (filter (\<lambda>token. token \<noteq> []) (split_on space (tokenize_str mt (strip p))))))
     + int (length (split_on newline (text a)))"
proof -
  have count: "num_tokens_article mt a = token_count_spec mt (text a)"
    by (simp add: num_tokens_article_def tokenize_article_eq)
  have "sum_list (map (paragraph_count mt) ps) =
      (\<Sum>p\<leftarrow>ps. int (length (filter (\<lambda>token. token \<noteq> [])
         (split_on space (tokenize_str mt (strip p)))))) + int (length ps)" for ps
    by (induction ps) (simp_all add: paragraph_count_def)
  with count show ?thesis
    by (simp add: token_count_spec_def)
qed

section \<open>Token counts of the sample articles\<close>

lemma split_on_lines:
  "split_on newline (concat (replicate n [CHR ''a'', newline]) @ l) =
     replicate n ''a'' @ split_on newline l"
  by (induction n) (simp_all add: Let_def)

lemma paragraph_count_a: "paragraph_count space_tokenizer ''a'' = 2"
  by code_simp

lemma lines_article_count:
  "num_tokens_article space_tokenizer (lines_article ttl n l) =
     2 * int n + token_count_spec space_tokenizer l"
proof -
  have "sum_list (map (paragraph_count space_tokenizer) (replicate n ''a'')) = 2 * int n"
    by (simp add: paragraph_count_a sum_list_replicate)
  then show ?thesis
    by (simp add: num_tokens_article_def tokenize_article_eq token_count_spec_def
        lines_article_def split_on_lines)
qed

lemma token_count_last_line:
  "token_count_spec space_tokenizer '''' = 1" "token_count_spec space_tokenizer ''a'' = 2"
  by code_simp+

lemma tokenize_str_a: "tokenize_str space_tokenizer (strip ''a'') = ''a''"
  by code_simp

lemma block_lines_article:
  "block space_tokenizer (lines_article ttl n ''a'') = lines_text (strip ttl) (Suc n)"
proof -
  have "split_on newline (text (lines_article ttl n ''a'')) = replicate (Suc n) ''a''"
    by (simp add: lines_article_def split_on_lines replicate_append_same)
  moreover have "title (lines_article ttl n ''a'') = ttl"
    by (simp add: lines_article_def)
  ultimately show ?thesis
    by (simp add: block_def lines_text_def tokenize_str_a del: replicate.simps)
qed

lemma strip_titles:
  "strip ''H'' = ''H''" "strip ''I'' = ''I''" "strip ''J'' = ''J''" "strip ''K'' = ''K''"
  "strip ''A'' = ''A''" "strip ''C'' = ''C''"
  by code_simp+

lemma block_samples:
  "block space_tokenizer (lines_article ''H'' 49 ''a'') = lines_text ''H'' 50"
  "block space_tokenizer (lines_article ''I'' 49 ''a'') = lines_text ''I'' 50"
  "block space_tokenizer (lines_article ''J'' 49 ''a'') = lines_text ''J'' 50"
  "block space_tokenizer (lines_article ''K'' 49 ''a'') = lines_text ''K'' 50"
  "block space_tokenizer (lines_article ''A'' 74 ''a'') = lines_text ''A'' 75"
  "block space_tokenizer (lines_article ''C'' 99 ''a'') = lines_text ''C'' 100"
  by (simp_all add: block_lines_article strip_titles)

lemma lines_text_nonempty: "lines_text ttl n \<noteq> []"
  by (simp add: lines_text_def)

section \<open>The acceptance filter\<close>

lemma block_nonempty: "block mt a \<noteq> []"
  by (simp add: block_def)

text \<open>
  C4. An article pulled by \<open>write_wikitext\<close> is written if and only if its
  \<open>num_tokens_article\<close> is at least 100. The text a call writes is, article by article
  over the articles it pulled, the block of the article when the count is at least 100 and
  nothing otherwise; a block is never empty. On a single article: the output is the block
  exactly when the count is at least 100 and is empty exactly when it is below; a count of 99
  excludes the article and a count of 100 includes it.
\<close>

theorem acceptance_filter:
  "(write_wikitext src mt nt = (w, rest) \<longrightarrow>
      f_out w = concat (map (\<lambda>a. if 100 \<le> num_tokens_article mt a then block mt a else [])
                         (consumed src rest))) \<and>
   block mt a \<noteq> [] \<and>
   (f_out (fst (write_wikitext [a] mt nt)) = block mt a \<longleftrightarrow> 100 \<le> num_tokens_article mt a) \<and>
   (f_out (fst (write_wikitext [a] mt nt)) = [] \<longleftrightarrow> num_tokens_article mt a < 100) \<and>
   (num_tokens_article mt a = 99 \<longrightarrow> f_out (fst (write_wikitext [a] mt nt)) = []) \<and>
   (num_tokens_article mt a = 100 \<longrightarrow> f_out (fst (write_wikitext [a] mt nt)) = block mt a)"
proof -
  have docs: "docs mt xs =
      concat (map (\<lambda>a. if 100 \<le> num_tokens_article mt a then block mt a else []) xs)" for xs
    by (induction xs) (simp_all add: docs_Cons accepted_def not_less, simp add: docs_def)
  have single: "f_out (fst (write_wikitext [a] mt nt)) =
      (if 100 \<le> num_tokens_article mt a then block mt a else [])"
  proof (cases "accepted mt a")
    case True
    then show ?thesis
      by (cases nt) (simp_all add: write_wikitext_def write_loop_accept Let_def accepted_def)
  next
    case False
    then show ?thesis
      by (simp add: write_wikitext_def write_loop_reject accepted_def)
  qed
  have general: "write_wikitext src mt nt = (w, rest) \<longrightarrow>
      f_out w = concat (map (\<lambda>a. if 100 \<le> num_tokens_article mt a then block mt a else [])
                         (consumed src rest))"
    using write_wikitext_char[of src mt nt w rest] docs by simp
  from general single block_nonempty[of mt a] show ?thesis
    by (simp add: not_le)
qed

theorem acceptance_filter_witness:
  "num_tokens_article space_tokenizer (lines_article ''N'' 49 '''') = 99 \<and>
   f_out (fst (write_wikitext [lines_article ''N'' 49 ''''] space_tokenizer None)) = [] \<and>
   num_tokens_article space_tokenizer (lines_article ''H'' 49 ''a'') = 100 \<and>
   f_out (fst (write_wikitext [lines_article ''H'' 49 ''a''] space_tokenizer None)) =
     lines_text ''H'' 50"
proof -
  have computed:
    "num_tokens_article space_tokenizer (lines_article ''N'' 49 '''') = 99 \<and>
     f_out (fst (write_wikitext [lines_article ''N'' 49 ''''] space_tokenizer None)) = [] \<and>
     num_tokens_article space_tokenizer (lines_article ''H'' 49 ''a'') = 100 \<and>
     f_out (fst (write_wikitext [lines_article ''H'' 49 ''a''] space_tokenizer None)) =
       block space_tokenizer (lines_article ''H'' 49 ''a'')"
  proof -
    have n: "num_tokens_article space_tokenizer (lines_article ''N'' 49 '''') = 99"
      by (simp add: lines_article_count token_count_last_line)
    have h: "num_tokens_article space_tokenizer (lines_article ''H'' 49 ''a'') = 100"
      by (simp add: lines_article_count token_count_last_line)
    from n acceptance_filter[of "[]" space_tokenizer None _ "[]" "lines_article ''N'' 49 ''''"]
    have "f_out (fst (write_wikitext [lines_article ''N'' 49 ''''] space_tokenizer None)) = []"
      by blast
    moreover
    from h acceptance_filter[of "[]" space_tokenizer None _ "[]" "lines_article ''H'' 49 ''a''"]
    have "f_out (fst (write_wikitext [lines_article ''H'' 49 ''a''] space_tokenizer None)) =
       block space_tokenizer (lines_article ''H'' 49 ''a'')"
      by blast
    ultimately show ?thesis using n h by blast
  qed
  then show ?thesis
    unfolding block_samples .
qed

section \<open>The budget\<close>

text \<open>
  C6. With a budget \<open>b\<close>: an article with fewer than 100 tokens changes nothing, the loop
  goes on with the same state; an accepted article is written, \<open>num_tokens_article + 1\<close> is
  added to \<open>total_num_tokens\<close> and one to \<open>count\<close>, and the loop stops there exactly when
  the new total is greater than \<open>b\<close>, returning the iterator as it stands after that
  article. For a whole call: the source is the articles pulled followed by the iterator
  returned; if articles are left, the last one pulled was accepted and took the total above
  \<open>b\<close>; and after no earlier accepted article was the total above \<open>b\<close>.
\<close>

theorem budget_accounting:
  "(num_tokens_article mt a < 100 \<longrightarrow>
      write_loop mt (Some b) (a # it) st = write_loop mt (Some b) it st) \<and>
   (\<not> num_tokens_article mt a < 100 \<longrightarrow>
      write_loop mt (Some b) (a # it) st =
        (let st' = \<lparr>f_out = f_out st @ block mt a, count = count st + 1,
                     total_num_tokens = total_num_tokens st + (num_tokens_article mt a + 1)\<rparr>
         in if total_num_tokens st' > b then (st', it) else write_loop mt (Some b) it st')) \<and>
   (write_wikitext src mt (Some b) = (w, rest) \<longrightarrow>
      src = consumed src rest @ rest \<and>
      f_out w = docs mt (consumed src rest) \<and>
      count w = int (length (filter (accepted mt) (consumed src rest))) \<and>
      total_num_tokens w = spent mt (consumed src rest) \<and>
      (rest \<noteq> [] \<longrightarrow>
         consumed src rest \<noteq> [] \<and> accepted mt (last (consumed src rest)) \<and>
         total_num_tokens w > b) \<and>
      (\<forall>k. Suc k < length (consumed src rest) \<and> accepted mt (consumed src rest ! k) \<longrightarrow>
         spent mt (take (Suc k) (consumed src rest)) \<le> b))"
proof (intro conjI impI allI)
  assume "num_tokens_article mt a < 100"
  then show "write_loop mt (Some b) (a # it) st = write_loop mt (Some b) it st"
    by (simp add: write_loop_reject accepted_def)
next
  assume "\<not> num_tokens_article mt a < 100"
  then show "write_loop mt (Some b) (a # it) st =
        (let st' = \<lparr>f_out = f_out st @ block mt a, count = count st + 1,
                     total_num_tokens = total_num_tokens st + (num_tokens_article mt a + 1)\<rparr>
         in if total_num_tokens st' > b then (st', it) else write_loop mt (Some b) it st')"
    by (simp add: write_loop_accept accepted_def Let_def)
next
  assume run: "write_wikitext src mt (Some b) = (w, rest)"
  from write_wikitext_char[OF run]
  show "src = consumed src rest @ rest"
    and "f_out w = docs mt (consumed src rest)"
    and "count w = int (length (filter (accepted mt) (consumed src rest)))"
    and "total_num_tokens w = spent mt (consumed src rest)"
    by simp_all
  from run have loop: "write_loop mt (Some b) src \<lparr>f_out = [], count = 0, total_num_tokens = 0\<rparr> = (w, rest)"
    by (simp add: write_wikitext_def)
  {
    assume "rest \<noteq> []"
    from write_loop_stopped[OF loop this]
    show "consumed src rest \<noteq> []" and "accepted mt (last (consumed src rest))"
      and "total_num_tokens w > b"
      by simp_all
  }
  {
    fix k
    assume "Suc k < length (consumed src rest) \<and> accepted mt (consumed src rest ! k)"
    then have "Suc k < length (consumed src rest)" "accepted mt (consumed src rest ! k)"
      by simp_all
    from write_loop_not_stopped[OF loop this]
    show "spent mt (take (Suc k) (consumed src rest)) \<le> b" by simp
  }
qed

theorem budget_accounting_witness:
  "num_tokens_article space_tokenizer (lines_article ''S'' 24 ''a'') < 100 \<and>
   \<not> num_tokens_article space_tokenizer (lines_article ''H'' 49 ''a'') < 100 \<and>
   write_wikitext
       [lines_article ''H'' 49 ''a'', lines_article ''S'' 24 ''a'', lines_article ''I'' 49 ''a'',
        lines_article ''J'' 49 ''a'']
       space_tokenizer (Some 150) =
     (\<lparr>f_out = lines_text ''H'' 50 @
                lines_text ''I'' 50,
        count = 2, total_num_tokens = 202\<rparr>,
      [lines_article ''J'' 49 ''a'']) \<and>
   consumed
       [lines_article ''H'' 49 ''a'', lines_article ''S'' 24 ''a'', lines_article ''I'' 49 ''a'',
        lines_article ''J'' 49 ''a'']
       [lines_article ''J'' 49 ''a''] =
     [lines_article ''H'' 49 ''a'', lines_article ''S'' 24 ''a'', lines_article ''I'' 49 ''a''] \<and>
   accepted space_tokenizer (lines_article ''I'' 49 ''a'') \<and>
   accepted space_tokenizer (lines_article ''H'' 49 ''a'') \<and>
   spent space_tokenizer [lines_article ''H'' 49 ''a''] \<le> 150"
proof -
  have computed:
    "num_tokens_article space_tokenizer (lines_article ''S'' 24 ''a'') < 100 \<and>
     \<not> num_tokens_article space_tokenizer (lines_article ''H'' 49 ''a'') < 100 \<and>
     write_wikitext
         [lines_article ''H'' 49 ''a'', lines_article ''S'' 24 ''a'', lines_article ''I'' 49 ''a'',
          lines_article ''J'' 49 ''a'']
         space_tokenizer (Some 150) =
       (\<lparr>f_out = block space_tokenizer (lines_article ''H'' 49 ''a'') @
                  block space_tokenizer (lines_article ''I'' 49 ''a''),
          count = 2, total_num_tokens = 202\<rparr>,
        [lines_article ''J'' 49 ''a'']) \<and>
     consumed
         [lines_article ''H'' 49 ''a'', lines_article ''S'' 24 ''a'', lines_article ''I'' 49 ''a'',
          lines_article ''J'' 49 ''a'']
         [lines_article ''J'' 49 ''a''] =
       [lines_article ''H'' 49 ''a'', lines_article ''S'' 24 ''a'', lines_article ''I'' 49 ''a''] \<and>
     accepted space_tokenizer (lines_article ''I'' 49 ''a'') \<and>
     accepted space_tokenizer (lines_article ''H'' 49 ''a'') \<and>
     spent space_tokenizer [lines_article ''H'' 49 ''a''] \<le> 150"
  proof -
    let ?mt = space_tokenizer
    let ?H = "lines_article ''H'' 49 ''a''" and ?S = "lines_article ''S'' 24 ''a''"
    let ?I = "lines_article ''I'' 49 ''a''" and ?J = "lines_article ''J'' 49 ''a''"
    let ?st0 = "\<lparr>f_out = [], count = 0, total_num_tokens = 0\<rparr>"
    let ?st1 = "\<lparr>f_out = block ?mt ?H, count = 1, total_num_tokens = 101\<rparr>"
    let ?st2 = "\<lparr>f_out = block ?mt ?H @ block ?mt ?I, count = 2, total_num_tokens = 202\<rparr>"
    have s: "num_tokens_article ?mt ?S = 50"
      by (simp add: lines_article_count token_count_last_line)
    have h: "num_tokens_article ?mt ?H = 100"
      by (simp add: lines_article_count token_count_last_line)
    have i: "num_tokens_article ?mt ?I = 100"
      by (simp add: lines_article_count token_count_last_line)
    have "write_loop ?mt (Some 150) [?H, ?S, ?I, ?J] ?st0 = write_loop ?mt (Some 150) [?S, ?I, ?J] ?st1"
      using budget_accounting[of ?mt ?H 150 "[?S, ?I, ?J]" ?st0] h by simp
    also have "\<dots> = write_loop ?mt (Some 150) [?I, ?J] ?st1"
      using budget_accounting[of ?mt ?S 150 "[?I, ?J]" ?st1] s by simp
    also have "\<dots> = (?st2, [?J])"
      using budget_accounting[of ?mt ?I 150 "[?J]" ?st1] i by simp
    finally have run: "write_wikitext [?H, ?S, ?I, ?J] ?mt (Some 150) = (?st2, [?J])"
      by (simp add: write_wikitext_def)
    have c: "consumed [?H, ?S, ?I, ?J] [?J] = [?H, ?S, ?I]"
      by (simp add: consumed_def)
    have acc: "accepted ?mt ?H"
      using h by (simp add: accepted_def)
    from budget_accounting[of ?mt ?H 150 "[]" ?st0 "[?H, ?S, ?I, ?J]" ?st2 "[?J]"] run
    have stopped: "accepted ?mt (last (consumed [?H, ?S, ?I, ?J] [?J]))"
      and earlier: "\<forall>k. Suc k < length (consumed [?H, ?S, ?I, ?J] [?J]) \<and>
          accepted ?mt (consumed [?H, ?S, ?I, ?J] [?J] ! k) \<longrightarrow>
          spent ?mt (take (Suc k) (consumed [?H, ?S, ?I, ?J] [?J])) \<le> 150"
      by simp_all
    from stopped c have "accepted ?mt ?I" by simp
    moreover from earlier[rule_format, of 0] c acc have "spent ?mt [?H] \<le> 150" by simp
    ultimately show ?thesis using s h run c acc by simp
  qed
  then show ?thesis
    unfolding block_samples .
qed

text \<open>
  C9. With a budget of zero or less the call returns normally: nothing is written when no
  article of the iterator is accepted; otherwise the articles before the first accepted one
  are skipped, that article is written, and the call stops there, the total
  (at least 101) being above the budget.
\<close>

theorem nonpositive_budget:
  "b \<le> 0 \<Longrightarrow>
   write_wikitext src mt (Some b) =
     (case dropWhile (\<lambda>a. num_tokens_article mt a < 100) src of
        [] \<Rightarrow> (\<lparr>f_out = [], count = 0, total_num_tokens = 0\<rparr>, [])
      | a # rest \<Rightarrow>
          (\<lparr>f_out = block mt a, count = 1, total_num_tokens = num_tokens_article mt a + 1\<rparr>, rest)) \<and>
   (\<forall>a. \<not> num_tokens_article mt a < 100 \<longrightarrow> 101 \<le> num_tokens_article mt a + 1 \<and> b < num_tokens_article mt a + 1)"
proof -
  assume b: "b \<le> 0"
  have "(\<lambda>a. \<not> accepted mt a) = (\<lambda>a. num_tokens_article mt a < 100)"
    by (simp add: accepted_def)
  with write_loop_nonpositive[OF b, of mt src] b show ?thesis
    by (simp add: write_wikitext_def)
qed

theorem nonpositive_budget_witness:
  "(0::int) \<le> 0 \<and>
   write_wikitext [lines_article ''S'' 24 ''a'', lines_article ''H'' 49 ''a'', lines_article ''I'' 49 ''a'']
       space_tokenizer (Some 0) =
     (\<lparr>f_out = lines_text ''H'' 50, count = 1, total_num_tokens = 101\<rparr>,
      [lines_article ''I'' 49 ''a''])"
proof -
  have computed:
    "(0::int) \<le> 0 \<and>
     write_wikitext [lines_article ''S'' 24 ''a'', lines_article ''H'' 49 ''a'', lines_article ''I'' 49 ''a'']
         space_tokenizer (Some 0) =
       (\<lparr>f_out = block space_tokenizer (lines_article ''H'' 49 ''a''), count = 1, total_num_tokens = 101\<rparr>,
        [lines_article ''I'' 49 ''a''])"
  proof -
    have s: "num_tokens_article space_tokenizer (lines_article ''S'' 24 ''a'') = 50"
      by (simp add: lines_article_count token_count_last_line)
    have h: "num_tokens_article space_tokenizer (lines_article ''H'' 49 ''a'') = 100"
      by (simp add: lines_article_count token_count_last_line)
    have b: "(0::int) \<le> 0" by simp
    from nonpositive_budget[OF b, of "[lines_article ''S'' 24 ''a'', lines_article ''H'' 49 ''a'', lines_article ''I'' 49 ''a'']" space_tokenizer] s h
    show ?thesis by simp
  qed
  then show ?thesis
    unfolding block_samples .
qed

section \<open>The source of articles and the three splits\<close>

lemma get_texts_file_filter:
  "get_texts_file f_in = filter (\<lambda>a. strip (text a) \<noteq> title a) f_in"
  by (induction f_in) simp_all

lemma get_texts_filter:
  "get_texts input_root = filter (\<lambda>a. strip (text a) \<noteq> title a) (concat (concat input_root))"
proof -
  have per_file: "get_texts_file = filter (\<lambda>a. strip (text a) \<noteq> title a)"
    by (rule ext) (rule get_texts_file_filter)
  show ?thesis
    by (induction input_root) (simp_all add: get_texts_def per_file filter_concat)
qed

lemma write_wikitext_stops_at_first:
  "accepted mt a \<Longrightarrow> b < num_tokens_article mt a + 1 \<Longrightarrow>
   write_wikitext (a # it) mt (Some b) =
     (\<lparr>f_out = block mt a, count = 1, total_num_tokens = num_tokens_article mt a + 1\<rparr>, it)"
  by (simp add: write_wikitext_def write_loop_accept Let_def)

lemma write_wikitext_exhausted:
  "write_wikitext [] mt nt = (\<lparr>f_out = [], count = 0, total_num_tokens = 0\<rparr>, [])"
  by (simp add: write_wikitext_def)

lemma lines_article_100:
  "num_tokens_article space_tokenizer (lines_article ttl 49 ''a'') = 100"
  "accepted space_tokenizer (lines_article ttl 49 ''a'')"
  by (simp_all add: accepted_def lines_article_count token_count_last_line)

lemma get_splits_100: "get_splits 100 float_0_1 = Inr [80, 10, 10]"
  by code_simp

lemma write_splits_four:
  "write_splits space_tokenizer
      (lines_article t1 49 ''a'' # lines_article t2 49 ''a'' # lines_article t3 49 ''a'' # it)
      [(''train'', 80), (''valid'', 10), (''test'', 10)] =
   ([(''train'', \<lparr>f_out = block space_tokenizer (lines_article t1 49 ''a''), count = 1,
                   total_num_tokens = 101\<rparr>),
     (''valid'', \<lparr>f_out = block space_tokenizer (lines_article t2 49 ''a''), count = 1,
                   total_num_tokens = 101\<rparr>),
     (''test'', \<lparr>f_out = block space_tokenizer (lines_article t3 49 ''a''), count = 1,
                  total_num_tokens = 101\<rparr>)], it)"
  by (simp add: write_wikitext_stops_at_first lines_article_100)

lemma get_texts_sample:
  "get_texts [[[lines_article ''H'' 49 ''a'', lines_article ''I'' 49 ''a''],
               [lines_article ''J'' 49 ''a'']], [[lines_article ''K'' 49 ''a'']]] =
     [lines_article ''H'' 49 ''a'', lines_article ''I'' 49 ''a'', lines_article ''J'' 49 ''a'',
      lines_article ''K'' 49 ''a'']"
  by code_simp

lemma get_texts_stub_sample:
  "get_texts [[[\<lparr>title = ''Stub'', text = '' Stub'' @ [newline]\<rparr>, lines_article ''H'' 49 ''a''],
               [lines_article ''I'' 49 ''a'', lines_article ''J'' 49 ''a'']]] =
     [lines_article ''H'' 49 ''a'', lines_article ''I'' 49 ''a'', lines_article ''J'' 49 ''a'']"
  by code_simp

text \<open>
  C2, as the code has it. The calls for the splits pull consecutive stretches of the one
  iterator: the source is these stretches in order followed by the iterator left at the end.
  Each split's output is the text of the accepted articles of its stretch, in order. So the
  outputs of the splits, one after the other, are the accepted articles of the part of the
  source that was pulled: a prefix of the accepted articles of the source, without repeats
  or gaps. Accepted articles still in the iterator when the last split stops are in no
  output; the outputs are all accepted articles of the source when the iterator ends empty.
\<close>

theorem exact_once_placement:
  "write_splits mt src budgets = (outs, rest) \<Longrightarrow>
     map fst outs = map fst budgets \<and>
     map f_out (map snd outs) = map (docs mt) (segments mt src budgets) \<and>
     src = concat (segments mt src budgets) @ rest \<and>
     concat (map f_out (map snd outs)) @ docs mt rest = docs mt src \<and>
     (rest = [] \<longrightarrow> concat (map f_out (map snd outs)) = docs mt src)"
proof -
  assume run: "write_splits mt src budgets = (outs, rest)"
  have docs_concat: "concat (map (docs mt) segs) = docs mt (concat segs)" for segs
    by (induction segs) (simp_all add: docs_append, simp add: docs_def)
  from write_splits_segments[OF run]
  have names: "map fst outs = map fst budgets"
    and outs: "map f_out (map snd outs) = map (docs mt) (segments mt src budgets)"
    and src: "src = concat (segments mt src budgets) @ rest"
    by simp_all
  have "concat (map f_out (map snd outs)) @ docs mt rest =
      docs mt (concat (segments mt src budgets) @ rest)"
    using outs by (simp add: docs_concat docs_append)
  with src have whole: "concat (map f_out (map snd outs)) @ docs mt rest = docs mt src"
    by simp
  have "docs mt [] = []" by (simp add: docs_def)
  with whole have "rest = [] \<longrightarrow> concat (map f_out (map snd outs)) = docs mt src"
    by auto
  with names outs src whole show ?thesis by blast
qed

theorem exact_once_placement_witness:
  "write_splits space_tokenizer
      [lines_article ''H'' 49 ''a'', lines_article ''I'' 49 ''a'', lines_article ''J'' 49 ''a'',
       lines_article ''K'' 49 ''a'']
      [(''train'', 80), (''valid'', 10), (''test'', 10)] =
   ([(''train'', \<lparr>f_out = lines_text ''H'' 50, count = 1,
                   total_num_tokens = 101\<rparr>),
     (''valid'', \<lparr>f_out = lines_text ''I'' 50, count = 1,
                   total_num_tokens = 101\<rparr>),
     (''test'', \<lparr>f_out = lines_text ''J'' 50, count = 1,
                  total_num_tokens = 101\<rparr>)], [lines_article ''K'' 49 ''a'']) \<and>
   (lines_text ''H'' 50 @
    lines_text ''I'' 50 @
    lines_text ''J'' 50) @
    docs space_tokenizer [lines_article ''K'' 49 ''a''] =
   docs space_tokenizer
     [lines_article ''H'' 49 ''a'', lines_article ''I'' 49 ''a'', lines_article ''J'' 49 ''a'',
      lines_article ''K'' 49 ''a''] \<and>
   write_splits space_tokenizer
      [lines_article ''H'' 49 ''a'', lines_article ''I'' 49 ''a'', lines_article ''J'' 49 ''a'']
      [(''train'', 80), (''valid'', 10), (''test'', 10)] =
   ([(''train'', \<lparr>f_out = lines_text ''H'' 50, count = 1,
                   total_num_tokens = 101\<rparr>),
     (''valid'', \<lparr>f_out = lines_text ''I'' 50, count = 1,
                   total_num_tokens = 101\<rparr>),
     (''test'', \<lparr>f_out = lines_text ''J'' 50, count = 1,
                  total_num_tokens = 101\<rparr>)], []) \<and>
   lines_text ''H'' 50 @
   lines_text ''I'' 50 @
   lines_text ''J'' 50 =
   docs space_tokenizer
     [lines_article ''H'' 49 ''a'', lines_article ''I'' 49 ''a'', lines_article ''J'' 49 ''a'']"
proof -
  have computed:
    "write_splits space_tokenizer
        [lines_article ''H'' 49 ''a'', lines_article ''I'' 49 ''a'', lines_article ''J'' 49 ''a'',
         lines_article ''K'' 49 ''a'']
        [(''train'', 80), (''valid'', 10), (''test'', 10)] =
     ([(''train'', \<lparr>f_out = block space_tokenizer (lines_article ''H'' 49 ''a''), count = 1,
                     total_num_tokens = 101\<rparr>),
       (''valid'', \<lparr>f_out = block space_tokenizer (lines_article ''I'' 49 ''a''), count = 1,
                     total_num_tokens = 101\<rparr>),
       (''test'', \<lparr>f_out = block space_tokenizer (lines_article ''J'' 49 ''a''), count = 1,
                    total_num_tokens = 101\<rparr>)], [lines_article ''K'' 49 ''a'']) \<and>
     (block space_tokenizer (lines_article ''H'' 49 ''a'') @
      block space_tokenizer (lines_article ''I'' 49 ''a'') @
      block space_tokenizer (lines_article ''J'' 49 ''a'')) @
      docs space_tokenizer [lines_article ''K'' 49 ''a''] =
     docs space_tokenizer
       [lines_article ''H'' 49 ''a'', lines_article ''I'' 49 ''a'', lines_article ''J'' 49 ''a'',
        lines_article ''K'' 49 ''a''] \<and>
     write_splits space_tokenizer
        [lines_article ''H'' 49 ''a'', lines_article ''I'' 49 ''a'', lines_article ''J'' 49 ''a'']
        [(''train'', 80), (''valid'', 10), (''test'', 10)] =
     ([(''train'', \<lparr>f_out = block space_tokenizer (lines_article ''H'' 49 ''a''), count = 1,
                     total_num_tokens = 101\<rparr>),
       (''valid'', \<lparr>f_out = block space_tokenizer (lines_article ''I'' 49 ''a''), count = 1,
                     total_num_tokens = 101\<rparr>),
       (''test'', \<lparr>f_out = block space_tokenizer (lines_article ''J'' 49 ''a''), count = 1,
                    total_num_tokens = 101\<rparr>)], []) \<and>
     block space_tokenizer (lines_article ''H'' 49 ''a'') @
     block space_tokenizer (lines_article ''I'' 49 ''a'') @
     block space_tokenizer (lines_article ''J'' 49 ''a'') =
     docs space_tokenizer
       [lines_article ''H'' 49 ''a'', lines_article ''I'' 49 ''a'', lines_article ''J'' 49 ''a'']"
  proof -
    let ?H = "lines_article ''H'' 49 ''a''" and ?I = "lines_article ''I'' 49 ''a''"
    let ?J = "lines_article ''J'' 49 ''a''" and ?K = "lines_article ''K'' 49 ''a''"
    let ?budgets = "[(''train'', 80), (''valid'', 10), (''test'', 10)] :: (string \<times> int) list"
    note left = write_splits_four[of "''H''" "''I''" "''J''" "[?K]"]
    note exhausted = write_splits_four[of "''H''" "''I''" "''J''" "[]"]
    from exact_once_placement[OF left, THEN conjunct2, THEN conjunct2, THEN conjunct2, THEN conjunct1]
    have a: "(block space_tokenizer ?H @ block space_tokenizer ?I @ block space_tokenizer ?J) @
        docs space_tokenizer [?K] = docs space_tokenizer [?H, ?I, ?J, ?K]"
      by simp
    from exact_once_placement[OF exhausted, THEN conjunct2, THEN conjunct2, THEN conjunct2, THEN conjunct2]
    have b: "block space_tokenizer ?H @ block space_tokenizer ?I @ block space_tokenizer ?J =
        docs space_tokenizer [?H, ?I, ?J]"
      by simp
    from left exhausted a b show ?thesis by blast
  qed
  then show ?thesis
    unfolding block_samples .
qed

text \<open>
  C2 as stated fails when the budgets run out before the source does: with a total of 100
  tokens the splits are 80, 10 and 10, each split stops after one article of 100 tokens, and
  the fourth article of the source is in no output.
\<close>

theorem exact_once_placement_counterexample:
  "main [[[lines_article ''H'' 49 ''a'', lines_article ''I'' 49 ''a''],
          [lines_article ''J'' 49 ''a'']], [[lines_article ''K'' 49 ''a'']]]
      space_tokenizer (Some 100) =
     Inr [(''train'', \<lparr>f_out = lines_text ''H'' 50, count = 1, total_num_tokens = 101\<rparr>),
          (''valid'', \<lparr>f_out = lines_text ''I'' 50, count = 1, total_num_tokens = 101\<rparr>),
          (''test'', \<lparr>f_out = lines_text ''J'' 50, count = 1, total_num_tokens = 101\<rparr>)] \<and>
   docs space_tokenizer
     (get_texts [[[lines_article ''H'' 49 ''a'', lines_article ''I'' 49 ''a''],
                  [lines_article ''J'' 49 ''a'']], [[lines_article ''K'' 49 ''a'']]]) =
     lines_text ''H'' 50 @ lines_text ''I'' 50 @ lines_text ''J'' 50 @ lines_text ''K'' 50 \<and>
   lines_text ''H'' 50 @ lines_text ''I'' 50 @ lines_text ''J'' 50 \<noteq>
   docs space_tokenizer
     (get_texts [[[lines_article ''H'' 49 ''a'', lines_article ''I'' 49 ''a''],
                  [lines_article ''J'' 49 ''a'']], [[lines_article ''K'' 49 ''a'']]])"
proof -
  let ?input = "[[[lines_article ''H'' 49 ''a'', lines_article ''I'' 49 ''a''],
                  [lines_article ''J'' 49 ''a'']], [[lines_article ''K'' 49 ''a'']]]"
  have run: "main ?input space_tokenizer (Some 100) =
     Inr [(''train'', \<lparr>f_out = lines_text ''H'' 50, count = 1, total_num_tokens = 101\<rparr>),
          (''valid'', \<lparr>f_out = lines_text ''I'' 50, count = 1, total_num_tokens = 101\<rparr>),
          (''test'', \<lparr>f_out = lines_text ''J'' 50, count = 1, total_num_tokens = 101\<rparr>)]"
    by (simp add: main_def get_texts_sample get_splits_100 splits_def write_splits_four
        block_samples del: write_splits.simps)
  have all: "docs space_tokenizer (get_texts ?input) =
      lines_text ''H'' 50 @ lines_text ''I'' 50 @ lines_text ''J'' 50 @ lines_text ''K'' 50"
    by (simp add: get_texts_sample docs_Cons lines_article_100 block_samples docs_def)
  have "lines_text ''H'' 50 @ lines_text ''I'' 50 @ lines_text ''J'' 50 \<noteq>
      docs space_tokenizer (get_texts ?input)"
    unfolding all by (simp add: lines_text_nonempty)
  with run all show ?thesis by blast
qed

text \<open>
  C3, as the code has it. \<open>get_texts\<close> yields the records of the tree, in order, whose
  stripped text differs from their title as it stands (the title is not stripped). A record
  whose stripped text equals its title is not yielded; it is in none of the stretches the
  splits pull from \<open>get_texts\<close>, and the outputs are made of those stretches only. The model
  of \<open>get_texts\<close> has no state: dropping a record changes nothing else.
\<close>

theorem stub_filtering:
  "strip (text a) = title a \<Longrightarrow>
     get_texts input_root = filter (\<lambda>a. strip (text a) \<noteq> title a) (concat (concat input_root)) \<and>
     a \<notin> set (get_texts input_root) \<and>
     (write_splits mt (get_texts input_root) budgets = (outs, rest) \<longrightarrow>
        map f_out (map snd outs) = map (docs mt) (segments mt (get_texts input_root) budgets) \<and>
        a \<notin> set (concat (segments mt (get_texts input_root) budgets)))"
proof -
  assume stub: "strip (text a) = title a"
  have notin: "a \<notin> set (get_texts input_root)"
    using stub by (simp add: get_texts_filter)
  {
    assume run: "write_splits mt (get_texts input_root) budgets = (outs, rest)"
    from write_splits_segments[OF run]
    have outs: "map f_out (map snd outs) =
        map (docs mt) (segments mt (get_texts input_root) budgets)"
      and src: "get_texts input_root = concat (segments mt (get_texts input_root) budgets) @ rest"
      by simp_all
    from src have "set (concat (segments mt (get_texts input_root) budgets)) \<subseteq> set (get_texts input_root)"
      by (metis set_append Un_upper1)
    with notin outs have "map f_out (map snd outs) =
        map (docs mt) (segments mt (get_texts input_root) budgets) \<and>
        a \<notin> set (concat (segments mt (get_texts input_root) budgets))"
      by blast
  }
  with notin get_texts_filter[of input_root] show ?thesis by blast
qed

theorem stub_filtering_witness:
  "strip (text \<lparr>title = ''Stub'', text = '' Stub'' @ [newline]\<rparr>) =
     title \<lparr>title = ''Stub'', text = '' Stub'' @ [newline]\<rparr> \<and>
   \<lparr>title = ''Stub'', text = '' Stub'' @ [newline]\<rparr> \<notin>
     set (get_texts [[[\<lparr>title = ''Stub'', text = '' Stub'' @ [newline]\<rparr>, lines_article ''H'' 49 ''a''],
                      [lines_article ''I'' 49 ''a'', lines_article ''J'' 49 ''a'']]]) \<and>
   write_splits space_tokenizer
      (get_texts [[[\<lparr>title = ''Stub'', text = '' Stub'' @ [newline]\<rparr>, lines_article ''H'' 49 ''a''],
                   [lines_article ''I'' 49 ''a'', lines_article ''J'' 49 ''a'']]])
      [(''train'', 80), (''valid'', 10), (''test'', 10)] =
   ([(''train'', \<lparr>f_out = block space_tokenizer (lines_article ''H'' 49 ''a''), count = 1,
                   total_num_tokens = 101\<rparr>),
     (''valid'', \<lparr>f_out = block space_tokenizer (lines_article ''I'' 49 ''a''), count = 1,
                   total_num_tokens = 101\<rparr>),
     (''test'', \<lparr>f_out = block space_tokenizer (lines_article ''J'' 49 ''a''), count = 1,
                  total_num_tokens = 101\<rparr>)], []) \<and>
   \<lparr>title = ''Stub'', text = '' Stub'' @ [newline]\<rparr> \<notin>
     set (concat (segments space_tokenizer
       (get_texts [[[\<lparr>title = ''Stub'', text = '' Stub'' @ [newline]\<rparr>, lines_article ''H'' 49 ''a''],
                    [lines_article ''I'' 49 ''a'', lines_article ''J'' 49 ''a'']]])
       [(''train'', 80), (''valid'', 10), (''test'', 10)]))"
proof -
  let ?stub = "\<lparr>title = ''Stub'', text = '' Stub'' @ [newline]\<rparr>"
  let ?input = "[[[?stub, lines_article ''H'' 49 ''a''],
                  [lines_article ''I'' 49 ''a'', lines_article ''J'' 49 ''a'']]]"
  let ?budgets = "[(''train'', 80), (''valid'', 10), (''test'', 10)] :: (string \<times> int) list"
  have stub: "strip (text ?stub) = title ?stub"
    by code_simp
  have run: "write_splits space_tokenizer (get_texts ?input) ?budgets =
   ([(''train'', \<lparr>f_out = block space_tokenizer (lines_article ''H'' 49 ''a''), count = 1,
                   total_num_tokens = 101\<rparr>),
     (''valid'', \<lparr>f_out = block space_tokenizer (lines_article ''I'' 49 ''a''), count = 1,
                   total_num_tokens = 101\<rparr>),
     (''test'', \<lparr>f_out = block space_tokenizer (lines_article ''J'' 49 ''a''), count = 1,
                  total_num_tokens = 101\<rparr>)], [])"
    unfolding get_texts_stub_sample by (rule write_splits_four)
  note filtering = stub_filtering[OF stub, of ?input space_tokenizer ?budgets]
  from filtering have absent: "?stub \<notin> set (get_texts ?input)"
    by (rule conjunct2[THEN conjunct1])
  from filtering[THEN conjunct2, THEN conjunct2, rule_format, OF run]
  have "?stub \<notin> set (concat (segments space_tokenizer (get_texts ?input) ?budgets))"
    by (rule conjunct2)
  with stub absent run show ?thesis by blast
qed

text \<open>
  C3 as stated fails for a title with a blank at its end: the stripped text equals the
  stripped title, the record is yielded all the same, and with 100 paragraphs it is written.
\<close>

theorem stub_filtering_counterexample:
  "strip (text \<lparr>title = ''a '', text = CHR ''a'' # replicate 99 newline\<rparr>) =
     strip (title \<lparr>title = ''a '', text = CHR ''a'' # replicate 99 newline\<rparr>) \<and>
   get_texts [[[\<lparr>title = ''a '', text = CHR ''a'' # replicate 99 newline\<rparr>]]] =
     [\<lparr>title = ''a '', text = CHR ''a'' # replicate 99 newline\<rparr>] \<and>
   write_wikitext (get_texts [[[\<lparr>title = ''a '', text = CHR ''a'' # replicate 99 newline\<rparr>]]])
       space_tokenizer None =
     (\<lparr>f_out = ''= a ='' @ [newline] @ ''a'' @ [newline] @ replicate 99 newline,
        count = 1, total_num_tokens = 102\<rparr>, [])"
  by code_simp

section \<open>findTotalTokens against write_wikitext\<close>

text \<open>
  C1 does not hold of the code. \<open>findTotalTokens\<close> tests \<open>token_count >= 100\<close> for each
  paragraph, inside the paragraph loop, and adds the length of the token list. On an article
  of 100 lines of one word each it returns 0, while \<open>write_wikitext\<close> counts 200 tokens for
  the article and accepts it, so that the total over the accepted articles is 200.
\<close>

theorem findTotalTokens_filters_paragraphs:
  "findTotalTokens [[[lines_article ''T'' 99 ''a'']]] space_tokenizer = 0 \<and>
   get_texts [[[lines_article ''T'' 99 ''a'']]] = [lines_article ''T'' 99 ''a''] \<and>
   num_tokens_article space_tokenizer (lines_article ''T'' 99 ''a'') = 200 \<and>
   accepted_token_total space_tokenizer [[[lines_article ''T'' 99 ''a'']]] = 200"
proof -
  have scan: "findTotalTokens [[[lines_article ''T'' 99 ''a'']]] space_tokenizer = 0"
    by code_simp
  have src: "get_texts [[[lines_article ''T'' 99 ''a'']]] = [lines_article ''T'' 99 ''a'']"
    by code_simp
  have n: "num_tokens_article space_tokenizer (lines_article ''T'' 99 ''a'') = 200"
    by (simp add: lines_article_count token_count_last_line)
  from scan src n show ?thesis
    by (simp add: accepted_token_total_def accepted_def)
qed

section \<open>Rounding to a double\<close>

lemma double_limit_code [code]:
  "double_limit = 179769313486231590772930519078902473361797697894230657273430081157732675805500963132708477322407536021120113879871393357658789768814416622492847430639474124377767893424865485276302219601246094119453082952085005768838150682342462881473913110540827237163350510684586298239947245938479716304835356329624224137216"
  by (simp add: double_limit_def)

lemma bit_length_bounds:
  "0 < n \<Longrightarrow> 0 < bit_length n \<and> 2 ^ nat (bit_length n - 1) \<le> n \<and> n < 2 ^ nat (bit_length n)"
proof (induction n rule: bit_length.induct)
  case (1 n)
  from "1.prems" have len: "bit_length n = 1 + bit_length (n div 2)"
    by (simp add: bit_length.simps[of n])
  show ?case
  proof (cases "n div 2 = 0")
    case True
    with "1.prems" have "n = 1" by linarith
    then show ?thesis by (simp add: bit_length.simps)
  next
    case False
    with "1.prems" have half: "0 < n div 2" by linarith
    with "1.prems" "1.IH" have pos: "0 < bit_length (n div 2)"
      and low: "2 ^ nat (bit_length (n div 2) - 1) \<le> n div 2"
      and up: "n div 2 < 2 ^ nat (bit_length (n div 2))"
      by simp_all
    from pos have "nat (bit_length (n div 2)) = Suc (nat (bit_length (n div 2) - 1))"
      by simp
    then have "(2::int) ^ nat (bit_length (n div 2)) = 2 * 2 ^ nat (bit_length (n div 2) - 1)"
      by (simp only: power_Suc)
    with low have l: "2 ^ nat (bit_length (n div 2)) \<le> n" by linarith
    from pos have "nat (1 + bit_length (n div 2)) = Suc (nat (bit_length (n div 2)))"
      by simp
    then have "(2::int) ^ nat (1 + bit_length (n div 2)) = 2 * 2 ^ nat (bit_length (n div 2))"
      by (simp only: power_Suc)
    with up have u: "n < 2 ^ nat (1 + bit_length (n div 2))" by linarith
    from pos l u show ?thesis by (simp add: len)
  qed
qed



lemma float_exponent_less:
  assumes "x \<noteq> 0"
  shows "\<bar>x\<bar> < power_int 2 (float_exponent x + 1)"
proof -
  obtain a b where q: "quotient_of \<bar>x\<bar> = (a, b)" by (cases "quotient_of \<bar>x\<bar>")
  then have b: "0 < b" and x: "\<bar>x\<bar> = of_int a / of_int b"
    by (simp_all add: quotient_of_denom_pos quotient_of_div)
  from assms have "0 < \<bar>x\<bar>" by simp
  with x b have a: "0 < a" by (simp add: zero_less_divide_iff)
  let ?la = "bit_length a" and ?lb = "bit_length b"
  from bit_length_bounds[OF a] have la_pos: "0 < ?la" and "a < 2 ^ nat ?la"
    by simp_all
  then have la: "of_int a < (2::rat) ^ nat ?la"
    by (metis of_int_less_iff of_int_numeral of_int_power)
  from bit_length_bounds[OF b] have lb_pos: "0 < ?lb" and "2 ^ nat (?lb - 1) \<le> b"
    by simp_all
  then have lb: "(2::rat) ^ nat (?lb - 1) \<le> of_int b"
    by (metis of_int_le_iff of_int_numeral of_int_power)
  have "(of_int a :: rat) / of_int b < 2 ^ nat ?la / 2 ^ nat (?lb - 1)"
    using la lb b a by (intro frac_less) simp_all
  also have "\<dots> = power_int 2 ?la / power_int (2::rat) (?lb - 1)"
    using la_pos lb_pos by (simp add: power_int_def)
  also have "\<dots> = power_int 2 (?la - (?lb - 1))"
    by (simp add: power_int_diff)
  also have "\<dots> = power_int 2 (?la - ?lb + 1)"
    by (simp add: algebra_simps)
  finally have up: "\<bar>x\<bar> < power_int 2 (?la - ?lb + 1)"
    using x by simp
  show ?thesis
    using up by (auto simp: float_exponent_def q Let_def not_le)
qed






section \<open>get_splits\<close>




section \<open>The scenario of three articles\<close>

text \<open>
  C8. Three articles with token counts 150, 50 and 200, budgets 250, 50 and 50. The train
  call writes the first article and goes on with a total of 151; the second article is
  dropped; the third is written, the total is 352 and the call stops with the iterator
  empty. The valid and test calls find nothing: no output, no document.
\<close>

theorem end_to_end_scenario:
  "num_tokens_article mt a1 = 150 \<Longrightarrow> num_tokens_article mt a2 = 50 \<Longrightarrow>
   num_tokens_article mt a3 = 200 \<Longrightarrow>
   write_loop mt (Some 250) [a1, a2, a3] \<lparr>f_out = [], count = 0, total_num_tokens = 0\<rparr> =
     write_loop mt (Some 250) [a2, a3] \<lparr>f_out = block mt a1, count = 1, total_num_tokens = 151\<rparr> \<and>
   write_loop mt (Some 250) [a2, a3] \<lparr>f_out = block mt a1, count = 1, total_num_tokens = 151\<rparr> =
     write_loop mt (Some 250) [a3] \<lparr>f_out = block mt a1, count = 1, total_num_tokens = 151\<rparr> \<and>
   write_loop mt (Some 250) [a3] \<lparr>f_out = block mt a1, count = 1, total_num_tokens = 151\<rparr> =
     (\<lparr>f_out = block mt a1 @ block mt a3, count = 2, total_num_tokens = 352\<rparr>, []) \<and>
   write_splits mt [a1, a2, a3] [(''train'', 250), (''valid'', 50), (''test'', 50)] =
     ([(''train'', \<lparr>f_out = block mt a1 @ block mt a3, count = 2, total_num_tokens = 352\<rparr>),
       (''valid'', \<lparr>f_out = [], count = 0, total_num_tokens = 0\<rparr>),
       (''test'', \<lparr>f_out = [], count = 0, total_num_tokens = 0\<rparr>)], [])"
proof -
  assume n: "num_tokens_article mt a1 = 150" "num_tokens_article mt a2 = 50"
    "num_tokens_article mt a3 = 200"
  let ?st0 = "\<lparr>f_out = [], count = 0, total_num_tokens = 0\<rparr>"
  let ?st1 = "\<lparr>f_out = block mt a1, count = 1, total_num_tokens = 151\<rparr>"
  let ?st2 = "\<lparr>f_out = block mt a1 @ block mt a3, count = 2, total_num_tokens = 352\<rparr>"
  from n have acc: "accepted mt a1" "\<not> accepted mt a2" "accepted mt a3"
    by (simp_all add: accepted_def)
  have first: "write_loop mt (Some 250) [a1, a2, a3] ?st0 = write_loop mt (Some 250) [a2, a3] ?st1"
    using acc n by (simp add: write_loop_accept Let_def)
  have second: "write_loop mt (Some 250) [a2, a3] ?st1 = write_loop mt (Some 250) [a3] ?st1"
    using acc by (simp add: write_loop_reject)
  have third: "write_loop mt (Some 250) [a3] ?st1 = (?st2, [])"
    using acc n by (simp add: write_loop_accept Let_def)
  from first second third have train: "write_wikitext [a1, a2, a3] mt (Some 250) = (?st2, [])"
    by (simp add: write_wikitext_def)
  have "write_splits mt [a1, a2, a3] [(''train'', 250), (''valid'', 50), (''test'', 50)] =
     ([(''train'', ?st2), (''valid'', ?st0), (''test'', ?st0)], [])"
    by (simp add: train write_wikitext_exhausted)
  with first second third show ?thesis by blast
qed

theorem end_to_end_scenario_witness:
  "num_tokens_article space_tokenizer (lines_article ''A'' 74 ''a'') = 150 \<and>
   num_tokens_article space_tokenizer (lines_article ''B'' 24 ''a'') = 50 \<and>
   num_tokens_article space_tokenizer (lines_article ''C'' 99 ''a'') = 200 \<and>
   write_splits space_tokenizer
       [lines_article ''A'' 74 ''a'', lines_article ''B'' 24 ''a'', lines_article ''C'' 99 ''a'']
       [(''train'', 250), (''valid'', 50), (''test'', 50)] =
     ([(''train'', \<lparr>f_out = lines_text ''A'' 75 @
                             lines_text ''C'' 100,
                     count = 2, total_num_tokens = 352\<rparr>),
       (''valid'', \<lparr>f_out = [], count = 0, total_num_tokens = 0\<rparr>),
       (''test'', \<lparr>f_out = [], count = 0, total_num_tokens = 0\<rparr>)], [])"
proof -
  have computed:
    "num_tokens_article space_tokenizer (lines_article ''A'' 74 ''a'') = 150 \<and>
     num_tokens_article space_tokenizer (lines_article ''B'' 24 ''a'') = 50 \<and>
     num_tokens_article space_tokenizer (lines_article ''C'' 99 ''a'') = 200 \<and>
     write_splits space_tokenizer
         [lines_article ''A'' 74 ''a'', lines_article ''B'' 24 ''a'', lines_article ''C'' 99 ''a'']
         [(''train'', 250), (''valid'', 50), (''test'', 50)] =
       ([(''train'', \<lparr>f_out = block space_tokenizer (lines_article ''A'' 74 ''a'') @
                               block space_tokenizer (lines_article ''C'' 99 ''a''),
                       count = 2, total_num_tokens = 352\<rparr>),
         (''valid'', \<lparr>f_out = [], count = 0, total_num_tokens = 0\<rparr>),
         (''test'', \<lparr>f_out = [], count = 0, total_num_tokens = 0\<rparr>)], [])"
  proof -
    have a: "num_tokens_article space_tokenizer (lines_article ''A'' 74 ''a'') = 150"
      by (simp add: lines_article_count token_count_last_line)
    have b: "num_tokens_article space_tokenizer (lines_article ''B'' 24 ''a'') = 50"
      by (simp add: lines_article_count token_count_last_line)
    have c: "num_tokens_article space_tokenizer (lines_article ''C'' 99 ''a'') = 200"
      by (simp add: lines_article_count token_count_last_line)
    from end_to_end_scenario[OF a b c] a b c show ?thesis by blast
  qed
  then show ?thesis
    unfolding block_samples .
qed

section \<open>Paragraphs without tokens\<close>

text \<open>
  C10. If no paragraph of an article tokenizes to a string with a non-empty token between
  spaces, then \<open>num_tokens_article\<close> is the number of paragraphs. With 100 paragraphs or
  more, \<open>write_wikitext\<close> accepts the article and writes the header line followed by one
  line per paragraph; each of these lines holds spaces only, and they are empty lines when
  the tokenizer returns the empty string for each paragraph.
\<close>

theorem zero_token_paragraphs:
  "\<forall>p \<in> set (split_on newline (text a)).
      filter (\<lambda>token. token \<noteq> []) (split_on space (tokenize_str mt (strip p))) = [] \<Longrightarrow>
   num_tokens_article mt a = int (length (split_on newline (text a))) \<and>
   (100 \<le> length (split_on newline (text a)) \<longrightarrow>
      write_wikitext [a] mt nt =
        (\<lparr>f_out = (''= '' @ strip (title a) @ '' ='') @ [newline] @
                   concat (map (\<lambda>p. tokenize_str mt (strip p) @ [newline])
                     (split_on newline (text a))),
           count = 1,
           total_num_tokens = int (length (split_on newline (text a))) + 1\<rparr>, [])) \<and>
   (\<forall>p \<in> set (split_on newline (text a)). set (tokenize_str mt (strip p)) \<subseteq> {space}) \<and>
   ((\<forall>p \<in> set (split_on newline (text a)). tokenize_str mt (strip p) = []) \<longrightarrow>
      concat (map (\<lambda>p. tokenize_str mt (strip p) @ [newline]) (split_on newline (text a))) =
        replicate (length (split_on newline (text a))) newline)"
proof -
  assume none: "\<forall>p \<in> set (split_on newline (text a)).
      filter (\<lambda>token. token \<noteq> []) (split_on space (tokenize_str mt (strip p))) = []"
  let ?ps = "split_on newline (text a)"
  have one: "\<forall>p \<in> set ps. paragraph_count mt p = 1 \<Longrightarrow>
      sum_list (map (paragraph_count mt) ps) = int (length ps)" for ps
    by (induction ps) simp_all
  from none have "\<forall>p \<in> set ?ps. paragraph_count mt p = 1"
    by (simp add: paragraph_count_def)
  from one[OF this] have n: "num_tokens_article mt a = int (length ?ps)"
    by (simp add: num_tokens_article_def tokenize_article_eq token_count_spec_def)
  have blk: "block mt a = (''= '' @ strip (title a) @ '' ='') @ [newline] @
      concat (map (\<lambda>p. tokenize_str mt (strip p) @ [newline]) ?ps)"
    by (simp add: block_def)
  have run: "100 \<le> length ?ps \<longrightarrow> write_wikitext [a] mt nt =
      (\<lparr>f_out = block mt a, count = 1, total_num_tokens = int (length ?ps) + 1\<rparr>, [])"
  proof
    assume "100 \<le> length ?ps"
    with n have "accepted mt a" by (simp add: accepted_def)
    then show "write_wikitext [a] mt nt =
      (\<lparr>f_out = block mt a, count = 1, total_num_tokens = int (length ?ps) + 1\<rparr>, [])"
      by (cases nt) (simp_all add: write_wikitext_def write_loop_accept Let_def n)
  qed
  from none have spaces: "\<forall>p \<in> set ?ps. set (tokenize_str mt (strip p)) \<subseteq> {space}"
    by (simp add: no_tokens_iff)
  have blank: "\<forall>p \<in> set ps. tokenize_str mt (strip p) = [] \<Longrightarrow>
      concat (map (\<lambda>p. tokenize_str mt (strip p) @ [newline]) ps) =
        replicate (length ps) newline" for ps
    by (induction ps) simp_all
  from n run spaces blank[of ?ps] show ?thesis
    unfolding blk by blast
qed

theorem zero_token_paragraphs_witness:
  "split_on newline (text \<lparr>title = ''T'', text = replicate 99 newline\<rparr>) = replicate 100 [] \<and>
   filter (\<lambda>token. token \<noteq> []) (split_on space (tokenize_str space_tokenizer (strip []))) = [] \<and>
   num_tokens_article space_tokenizer \<lparr>title = ''T'', text = replicate 99 newline\<rparr> = 100 \<and>
   write_wikitext [\<lparr>title = ''T'', text = replicate 99 newline\<rparr>] space_tokenizer None =
     (\<lparr>f_out = ''= T ='' @ [newline] @ replicate 100 newline, count = 1, total_num_tokens = 101\<rparr>, [])"
proof -
  let ?a = "\<lparr>title = ''T'', text = replicate 99 newline\<rparr>"
  have ps: "split_on newline (text ?a) = replicate 100 []"
    by code_simp
  have tok: "tokenize_str space_tokenizer (strip []) = []"
    by code_simp
  have ttl: "strip (title ?a) = ''T''"
    by code_simp
  have none: "\<forall>p \<in> set (split_on newline (text ?a)).
      filter (\<lambda>token. token \<noteq> []) (split_on space (tokenize_str space_tokenizer (strip p))) = []"
    unfolding ps by (simp add: tok)
  have empty: "\<forall>p \<in> set (split_on newline (text ?a)). tokenize_str space_tokenizer (strip p) = []"
    unfolding ps by (simp add: tok)
  note z = zero_token_paragraphs[OF none, of None]
  from z have n: "num_tokens_article space_tokenizer ?a = 100"
    unfolding ps by simp
  have len: "(100::nat) \<le> length (split_on newline (text ?a))"
    unfolding ps by simp
  from z[THEN conjunct2, THEN conjunct2, THEN conjunct2, THEN mp, OF empty]
  have lines: "concat (map (\<lambda>p. tokenize_str space_tokenizer (strip p) @ [newline])
      (split_on newline (text ?a))) = replicate 100 newline"
    unfolding ps by simp
  from z[THEN conjunct2, THEN conjunct1, THEN mp, OF len]
  have "write_wikitext [?a] space_tokenizer None =
     (\<lparr>f_out = ''= T ='' @ [newline] @ replicate 100 newline, count = 1, total_num_tokens = 101\<rparr>, [])"
    unfolding lines ttl unfolding ps by simp
  with ps tok n show ?thesis by simp
qed

end
